theory Spec2Isabelle
  imports Complex_Main "HOL-Library.AList" "HOL-Library.Product_Lexorder"
begin

section \<open>Values, errors and the Python primitives used by \<open>standardize_cv.py\<close>\<close>

text \<open>
  The values handled by the pipeline are what \<open>json.loads\<close> produces: \<open>None\<close>, booleans,
  unbounded integers, floats, strings, lists and dictionaries with string keys. A dictionary
  is an association list in insertion order (the order \<open>yaml.safe_dump(sort_keys=False)\<close>
  writes); a real dictionary has distinct keys. Of a float the code only ever tests whether
  it is zero, so a float is the real number it denotes. A \<open>char\<close> stands for one code point
  below 256.
\<close>

datatype json =
    JNull
  | JBool bool
  | JInt int
  | JFloat real
  | JStr string
  | JArr "json list"
  | JObj "(string \<times> json) list"

text \<open>
  The exceptions the modelled functions can raise. \<open>NoJsonObject\<close> is the \<open>ValueError\<close> of
  \<open>_extract_json_object\<close>, \<open>NoMarkdownFiles\<close> the \<open>RuntimeError\<close> of \<open>_find_best_markdown\<close>;
  \<open>OtherError\<close> is any exception of \<open>json.loads\<close> that is not a \<open>JSONDecodeError\<close>.
\<close>

datatype error =
    AttributeError
  | TypeError
  | JSONDecodeError
  | NoJsonObject
  | NoMarkdownFiles
  | OtherError

definition bind_result :: "error + 'a \<Rightarrow> ('a \<Rightarrow> error + 'b) \<Rightarrow> error + 'b" where
  "bind_result m f = (case m of Inl e \<Rightarrow> Inl e | Inr x \<Rightarrow> f x)"

text \<open>Python truth value of a JSON value.\<close>

fun truthy :: "json \<Rightarrow> bool" where
  "truthy JNull = False"
| "truthy (JBool b) = b"
| "truthy (JInt n) = (n \<noteq> 0)"
| "truthy (JFloat x) = (x \<noteq> 0)"
| "truthy (JStr s) = (s \<noteq> [])"
| "truthy (JArr xs) = (xs \<noteq> [])"
| "truthy (JObj kvs) = (kvs \<noteq> [])"

text \<open>\<open>x or d\<close>.\<close>

definition py_or :: "json \<Rightarrow> json \<Rightarrow> json" where
  "py_or x d = (if truthy x then x else d)"

text \<open>\<open>d.get(k)\<close> on a dictionary: \<open>None\<close> when the key is missing.\<close>

definition dict_get :: "(string \<times> json) list \<Rightarrow> string \<Rightarrow> json" where
  "dict_get kvs k = (case map_of kvs k of None \<Rightarrow> JNull | Some v \<Rightarrow> v)"

text \<open>\<open>x.get(k)\<close> on any value: only a dictionary has the method.\<close>

fun py_get :: "json \<Rightarrow> string \<Rightarrow> error + json" where
  "py_get (JObj kvs) k = Inr (dict_get kvs k)"
| "py_get _ k = Inl AttributeError"

text \<open>
  \<open>for item in x\<close>: a list gives its elements, a string its characters as one-character
  strings, a dictionary its keys; nothing else among the JSON values is iterable.
\<close>

fun py_iter :: "json \<Rightarrow> error + json list" where
  "py_iter (JArr xs) = Inr xs"
| "py_iter (JStr s) = Inr (map (\<lambda>c. JStr [c]) s)"
| "py_iter (JObj kvs) = Inr (map (\<lambda>kv. JStr (fst kv)) kvs)"
| "py_iter _ = Inl TypeError"

text \<open>
  \<open>str(x)\<close>: a string is returned as it is. The text Python prints for the other values
  (\<open>repr\<close> of floats, of nested containers) is not part of this repository; it is the
  parameter \<open>str_repr\<close>, a total function, as \<open>str\<close> returns for every JSON value.
\<close>

fun py_str :: "(json \<Rightarrow> string) \<Rightarrow> json \<Rightarrow> string" where
  "py_str str_repr (JStr s) = s"
| "py_str str_repr v = str_repr v"

text \<open>
  \<open>s.strip()\<close>: the characters Python's \<open>str.isspace\<close> accepts among the code points below
  256 are 9 to 13, 28 to 32, 133 and 160.
\<close>

definition is_space :: "char \<Rightarrow> bool" where
  "is_space c =
     (let n = (of_char c :: nat)
      in (9 \<le> n \<and> n \<le> 13) \<or> (28 \<le> n \<and> n \<le> 32) \<or> n = 133 \<or> n = 160)"

definition py_strip :: "string \<Rightarrow> string" where
  "py_strip s = rev (dropWhile is_space (rev (dropWhile is_space s)))"

text \<open>\<open>sep.join(xs)\<close>.\<close>

fun py_join :: "string \<Rightarrow> string list \<Rightarrow> string" where
  "py_join sep [] = []"
| "py_join sep [x] = x"
| "py_join sep (x # y # ys) = x @ sep @ py_join sep (y # ys)"

section \<open>The schema projector\<close>

text \<open>
  \<open>_strip_none_fields\<close>: the loop stores every pair whose value is not \<open>None\<close> into a fresh
  dictionary; \<open>out[k] = v\<close> replaces the value of a key already there and appends a new key.
\<close>

definition strip_none_step :: "string \<times> json \<Rightarrow> (string \<times> json) list \<Rightarrow> (string \<times> json) list" where
  "strip_none_step kv out = (case snd kv of JNull \<Rightarrow> out | v \<Rightarrow> AList.update (fst kv) v out)"

definition strip_none_fields :: "(string \<times> json) list \<Rightarrow> (string \<times> json) list" where
  "strip_none_fields d = fold strip_none_step d []"

text \<open>Lines 231 to 235: the list \<open>social\<close>.\<close>

definition social_entry :: "(json \<Rightarrow> string) \<Rightarrow> string \<Rightarrow> json \<Rightarrow> json list" where
  "social_entry str_repr network v =
     (if truthy v
      then [JObj [(''network'', JStr network), (''username'', JStr (py_str str_repr v))]]
      else [])"

definition social_networks :: "(json \<Rightarrow> string) \<Rightarrow> (string \<times> json) list \<Rightarrow> json list" where
  "social_networks str_repr contact =
     social_entry str_repr ''LinkedIn'' (dict_get contact ''linkedin'')
     @ social_entry str_repr ''GitHub'' (dict_get contact ''github'')"

text \<open>Lines 222 to 237: the dictionary \<open>rendercv_cv\<close> before \<open>None\<close> values are stripped.\<close>

definition rendercv_cv :: "(json \<Rightarrow> string) \<Rightarrow> (string \<times> json) list \<Rightarrow> (string \<times> json) list
    \<Rightarrow> (string \<times> json) list" where
  "rendercv_cv str_repr cv contact =
     (let base = [(''name'', py_or (dict_get cv ''name'') (JStr '''')),
                  (''email'', dict_get contact ''email''),
                  (''phone'', dict_get contact ''phone''),
                  (''location'', dict_get contact ''location''),
                  (''website'', dict_get contact ''website'')];
          social = social_networks str_repr contact
      in if social \<noteq> [] then AList.update ''social_networks'' (JArr social) base else base)"

text \<open>Lines 246 to 257: the entry appended for one experience item that is a dictionary.\<close>

definition exp_entry :: "(string \<times> json) list \<Rightarrow> (string \<times> json) list" where
  "exp_entry item =
     strip_none_fields
       [(''company'', py_or (dict_get item ''company'') (JStr '''')),
        (''position'', dict_get item ''position''),
        (''location'', dict_get item ''location''),
        (''start_date'', dict_get item ''start_date''),
        (''end_date'', dict_get item ''end_date''),
        (''highlights'', py_or (dict_get item ''highlights'') (JArr []))]"

text \<open>Lines 266 to 278: the entry appended for one education item that is a dictionary.\<close>

definition edu_entry :: "(string \<times> json) list \<Rightarrow> (string \<times> json) list" where
  "edu_entry item =
     strip_none_fields
       [(''institution'', py_or (dict_get item ''institution'') (JStr '''')),
        (''degree'', dict_get item ''degree''),
        (''field'', dict_get item ''field''),
        (''location'', dict_get item ''location''),
        (''start_date'', dict_get item ''start_date''),
        (''end_date'', dict_get item ''end_date''),
        (''highlights'', py_or (dict_get item ''notes'') (JArr []))]"

text \<open>
  The two loops over \<open>cv.get("experience") or []\<close> and \<open>cv.get("education") or []\<close>: an
  item that is not a dictionary is skipped by \<open>continue\<close>.
\<close>

fun collect_entries :: "((string \<times> json) list \<Rightarrow> (string \<times> json) list) \<Rightarrow> json list \<Rightarrow> json list" where
  "collect_entries mk [] = []"
| "collect_entries mk (JObj item # items) = JObj (mk item) # collect_entries mk items"
| "collect_entries mk (_ # items) = collect_entries mk items"

definition exp_entries :: "(string \<times> json) list \<Rightarrow> error + json list" where
  "exp_entries cv =
     bind_result (py_iter (py_or (dict_get cv ''experience'') (JArr [])))
       (\<lambda>items. Inr (collect_entries exp_entry items))"

definition edu_entries :: "(string \<times> json) list \<Rightarrow> error + json list" where
  "edu_entries cv =
     bind_result (py_iter (py_or (dict_get cv ''education'') (JArr [])))
       (\<lambda>items. Inr (collect_entries edu_entry items))"

text \<open>Line 283: the comprehension keeps the strings \<open>s\<close> with \<open>s.strip()\<close> non-empty.\<close>

fun keep_skills :: "json list \<Rightarrow> string list" where
  "keep_skills [] = []"
| "keep_skills (JStr s # xs) = (if py_strip s \<noteq> [] then s # keep_skills xs else keep_skills xs)"
| "keep_skills (_ # xs) = keep_skills xs"

definition skills_list :: "(string \<times> json) list \<Rightarrow> error + string list" where
  "skills_list cv =
     bind_result (py_iter (py_or (dict_get cv ''skills'') (JArr [])))
       (\<lambda>items. Inr (keep_skills items))"

text \<open>Lines 239 to 285: the dictionary \<open>sections\<close>.\<close>

definition add_section :: "string \<Rightarrow> json list \<Rightarrow> (string \<times> json) list \<Rightarrow> (string \<times> json) list" where
  "add_section k entries sections =
     (if entries \<noteq> [] then AList.update k (JArr entries) sections else sections)"

definition skills_section :: "string list \<Rightarrow> (string \<times> json) list \<Rightarrow> (string \<times> json) list" where
  "skills_section skills sections =
     (if skills \<noteq> []
      then AList.update ''skills'' (JArr [JObj [(''details'', JStr (py_join '', '' skills))]]) sections
      else sections)"

definition build_sections :: "(string \<times> json) list \<Rightarrow> error + (string \<times> json) list" where
  "build_sections cv =
     bind_result (exp_entries cv) (\<lambda>exps.
     bind_result (edu_entries cv) (\<lambda>edus.
     bind_result (skills_list cv) (\<lambda>skills.
       Inr (skills_section skills
             (add_section ''education'' edus
               (add_section ''experience'' exps []))))))"

text \<open>Lines 287 to 294: the result, once \<open>cv\<close> and \<open>contact\<close> are dictionaries.\<close>

definition assemble :: "(string \<times> json) list \<Rightarrow> (string \<times> json) list \<Rightarrow> json" where
  "assemble fields sections =
     (let out_cv = strip_none_fields fields
      in JObj [(''cv'', JObj (if sections \<noteq> []
                               then AList.update ''sections'' (JObj sections) out_cv
                               else out_cv))])"

text \<open>
  Lines 219 and 220. \<open>structured.get\<close> needs a dictionary; \<open>cv.get("contact_info")\<close> raises
  \<open>AttributeError\<close> when \<open>cv\<close> is a true value that is not a dictionary, and so does
  \<open>contact.get("email")\<close> on line 225 for \<open>contact\<close>. Once the two calls have passed, every
  later \<open>cv.get\<close> and \<open>contact.get\<close> is \<open>dict_get\<close>.
\<close>

fun as_dict :: "json \<Rightarrow> error + (string \<times> json) list" where
  "as_dict (JObj kvs) = Inr kvs"
| "as_dict _ = Inl AttributeError"

definition get_cv :: "json \<Rightarrow> error + (string \<times> json) list" where
  "get_cv structured =
     bind_result (py_get structured ''cv'') (\<lambda>cv0. as_dict (py_or cv0 (JObj [])))"

definition get_contact :: "(string \<times> json) list \<Rightarrow> error + (string \<times> json) list" where
  "get_contact cv = as_dict (py_or (dict_get cv ''contact_info'') (JObj []))"

text \<open>\<open>convert_structured_to_rendercv_yaml\<close>, in the order the source evaluates.\<close>

definition convert_structured_to_rendercv_yaml :: "(json \<Rightarrow> string) \<Rightarrow> json \<Rightarrow> error + json" where
  "convert_structured_to_rendercv_yaml str_repr structured =
     bind_result (get_cv structured) (\<lambda>cv.
     bind_result (get_contact cv) (\<lambda>contact.
     bind_result (build_sections cv) (\<lambda>sections.
       Inr (assemble (rendercv_cv str_repr cv contact) sections))))"

text \<open>
  An instance of the parameter \<open>str_repr\<close> for evaluating the projector on concrete records
  whose \<open>linkedin\<close> and \<open>github\<close> are strings or missing, where it is never consulted.
\<close>

definition sample_repr :: "json \<Rightarrow> string" where
  "sample_repr v = ''?''"




section \<open>The JSON salvage parser\<close>







section \<open>The artifact selector\<close>

text \<open>
  A candidate of \<open>marker_out_dir.rglob("*.md")\<close>: the directory it lies in, its file name
  \<open>p.name\<close>, and the size \<open>p.stat().st_size\<close>, which is \<open>None\<close> when \<open>stat\<close> raises \<open>OSError\<close>.
\<close>

record md_file =
  parent :: string
  name :: string
  st_size :: "nat option"

text \<open>
  \<open>re.search(r"(cv|resume)", p.name, re.IGNORECASE)\<close>: one of the two words occurs in the
  name, letters compared without case.
\<close>

definition lower_char :: "char \<Rightarrow> char" where
  "lower_char c =
     (case map_of (zip ''ABCDEFGHIJKLMNOPQRSTUVWXYZ'' ''abcdefghijklmnopqrstuvwxyz'') c of
        None \<Rightarrow> c
      | Some l \<Rightarrow> l)"

fun occurs_in :: "string \<Rightarrow> string \<Rightarrow> bool" where
  "occurs_in pat [] = (pat = [])"
| "occurs_in pat (c # cs) = (take (length pat) (c # cs) = pat \<or> occurs_in pat cs)"

definition name_matches :: "string \<Rightarrow> bool" where
  "name_matches n =
     (occurs_in ''cv'' (map lower_char n) \<or> occurs_in ''resume'' (map lower_char n))"

text \<open>The key \<open>score\<close>: a pair, compared first by the name bias and then by the size.\<close>

definition score :: "md_file \<Rightarrow> nat \<times> nat" where
  "score p =
     (let name_bias = (if name_matches (name p) then 1 else 0);
          sz = (case st_size p of None \<Rightarrow> 0 | Some n \<Rightarrow> n)
      in (name_bias, sz))"

text \<open>
  \<open>xs.sort(key=f, reverse=True)\<close>: descending by key, and elements with equal keys keep
  their order (Python reverses the list, sorts it stably and reverses it again).
\<close>

definition sort_reverse :: "('a \<Rightarrow> 'k::linorder) \<Rightarrow> 'a list \<Rightarrow> 'a list" where
  "sort_reverse f xs = rev (sort_key f (rev xs))"

text \<open>\<open>_find_best_markdown\<close>, on the list of candidates the directory listing gave.\<close>

definition find_best_markdown :: "md_file list \<Rightarrow> error + md_file" where
  "find_best_markdown candidates =
     (if candidates = [] then Inl NoMarkdownFiles
      else case sort_reverse score candidates of
             [] \<Rightarrow> Inl NoMarkdownFiles
           | p # _ \<Rightarrow> Inr p)"

section \<open>Association lists and \<open>_strip_none_fields\<close>\<close>

lemma update_fresh: "k \<notin> fst ` set al \<Longrightarrow> AList.update k v al = al @ [(k, v)]"
  by (induction al) auto

lemma strip_none_step_simps:
  "snd kv = JNull \<Longrightarrow> strip_none_step kv out = out"
  "snd kv \<noteq> JNull \<Longrightarrow> strip_none_step kv out = AList.update (fst kv) (snd kv) out"
  by (auto simp: strip_none_step_def split: json.splits)

lemma fold_strip_none_step:
  "distinct (map fst (acc @ d)) \<Longrightarrow>
   fold strip_none_step d acc = acc @ filter (\<lambda>kv. snd kv \<noteq> JNull) d"
proof (induction d arbitrary: acc)
  case Nil
  then show ?case by simp
next
  case (Cons kv d)
  show ?case
  proof (cases "snd kv = JNull")
    case True
    from Cons.prems have "distinct (map fst (acc @ d))" by simp
    with Cons.IH True show ?thesis by (simp add: strip_none_step_simps)
  next
    case False
    from Cons.prems have fresh: "fst kv \<notin> fst ` set acc" by auto
    from Cons.prems have "distinct (map fst ((acc @ [kv]) @ d))" by simp
    from Cons.IH [OF this] False fresh show ?thesis
      by (simp add: strip_none_step_simps update_fresh)
  qed
qed

lemma strip_none_fields_filter:
  "distinct (map fst d) \<Longrightarrow> strip_none_fields d = filter (\<lambda>kv. snd kv \<noteq> JNull) d"
  using fold_strip_none_step [of "[]" d] by (simp add: strip_none_fields_def)

lemma map_of_filter_nonnull:
  "distinct (map fst d) \<Longrightarrow>
   map_of (filter (\<lambda>kv. snd kv \<noteq> JNull) d) k =
     (case map_of d k of None \<Rightarrow> None | Some v \<Rightarrow> if v = JNull then None else Some v)"
proof (induction d)
  case Nil
  then show ?case by simp
next
  case (Cons kv d)
  then show ?case
    by (cases kv) (auto simp: map_of_eq_None_iff image_iff split: option.splits)
qed

lemma map_of_strip_none_fields:
  "distinct (map fst d) \<Longrightarrow>
   map_of (strip_none_fields d) k =
     (case map_of d k of None \<Rightarrow> None | Some v \<Rightarrow> if v = JNull then None else Some v)"
  by (simp add: strip_none_fields_filter map_of_filter_nonnull)

lemma strip_none_fields_nonnull:
  "distinct (map fst d) \<Longrightarrow> kv \<in> set (strip_none_fields d) \<Longrightarrow> snd kv \<noteq> JNull"
  by (simp add: strip_none_fields_filter)

lemma distinct_strip_none_fields:
  "distinct (map fst d) \<Longrightarrow> distinct (map fst (strip_none_fields d))"
  by (simp add: strip_none_fields_filter distinct_map_filter)

lemma key_in_iff_map_of: "k \<in> fst ` set al \<longleftrightarrow> map_of al k \<noteq> None"
  by (simp add: map_of_eq_None_iff)

section \<open>The shape of a projection\<close>

lemma bind_result_Inr_iff:
  "bind_result m f = Inr r \<longleftrightarrow> (\<exists>x. m = Inr x \<and> f x = Inr r)"
  by (cases m) (simp_all add: bind_result_def)

lemma py_or_nonnull: "d \<noteq> JNull \<Longrightarrow> py_or x d \<noteq> JNull"
  by (cases x) (simp_all add: py_or_def)

lemma dict_get_JNull_iff: "dict_get kvs k = JNull \<longleftrightarrow> map_of kvs k = None \<or> map_of kvs k = Some JNull"
  by (simp add: dict_get_def split: option.splits)

lemma set_update_cases:
  "kv \<in> set (AList.update k v al) \<Longrightarrow> kv = (k, v) \<or> kv \<in> set al"
  by (induction al) (auto split: if_splits)

lemma convert_Inr:
  "convert_structured_to_rendercv_yaml str_repr s = Inr r \<longleftrightarrow>
     (\<exists>cv contact sections. get_cv s = Inr cv \<and> get_contact cv = Inr contact
        \<and> build_sections cv = Inr sections
        \<and> r = assemble (rendercv_cv str_repr cv contact) sections)"
  by (auto simp: convert_structured_to_rendercv_yaml_def bind_result_Inr_iff)

lemma build_sections_Inr:
  "build_sections cv = Inr sections \<longleftrightarrow>
     (\<exists>exps edus skills. exp_entries cv = Inr exps \<and> edu_entries cv = Inr edus
        \<and> skills_list cv = Inr skills
        \<and> sections = skills_section skills
             (add_section ''education'' edus (add_section ''experience'' exps [])))"
  by (auto simp: build_sections_def bind_result_Inr_iff)

lemma distinct_rendercv_cv: "distinct (map fst (rendercv_cv str_repr cv contact))"
  by (simp add: rendercv_cv_def Let_def)

lemma map_of_rendercv_cv_name:
  "map_of (rendercv_cv str_repr cv contact) ''name'' = Some (py_or (dict_get cv ''name'') (JStr ''''))"
  by (simp add: rendercv_cv_def Let_def)

lemma map_of_rendercv_cv_contact:
  "f \<in> {''email'', ''phone'', ''location'', ''website''} \<Longrightarrow>
   map_of (rendercv_cv str_repr cv contact) f = Some (dict_get contact f)"
  by (auto simp: rendercv_cv_def Let_def)

lemma assemble_shape:
  "assemble flds sections =
     JObj [(''cv'', JObj (if sections \<noteq> []
                          then AList.update ''sections'' (JObj sections) (strip_none_fields flds)
                          else strip_none_fields flds))]"
  by (simp add: assemble_def Let_def)

lemma map_of_out_cv:
  assumes "distinct (map fst flds)" and "k \<noteq> ''sections''"
  shows "map_of (if sections \<noteq> []
                 then AList.update ''sections'' (JObj sections) (strip_none_fields flds)
                 else strip_none_fields flds) k =
         (case map_of flds k of None \<Rightarrow> None | Some v \<Rightarrow> if v = JNull then None else Some v)"
  using assms by (simp add: AList.update_conv' map_of_strip_none_fields)

lemma out_cv_nonnull:
  assumes "distinct (map fst flds)"
    and "kv \<in> set (if sections \<noteq> []
                 then AList.update ''sections'' (JObj sections) (strip_none_fields flds)
                 else strip_none_fields flds)"
  shows "snd kv \<noteq> JNull"
proof (cases "sections = []")
  case True
  with assms show ?thesis by (simp add: strip_none_fields_nonnull)
next
  case False
  with assms(2) have "kv \<in> set (AList.update ''sections'' (JObj sections) (strip_none_fields flds))"
    by simp
  then have "kv = (''sections'', JObj sections) \<or> kv \<in> set (strip_none_fields flds)"
    by (rule set_update_cases)
  with assms(1) show ?thesis by (auto dest: strip_none_fields_nonnull)
qed

lemma map_of_rendercv_cv_sections:
  "map_of (rendercv_cv str_repr cv contact) ''sections'' = None"
  by (simp add: rendercv_cv_def Let_def)

lemma sections_not_in_fields:
  "''sections'' \<notin> fst ` set (strip_none_fields (rendercv_cv str_repr cv contact))"
  by (simp add: key_in_iff_map_of map_of_strip_none_fields distinct_rendercv_cv
      map_of_rendercv_cv_sections)

lemma map_of_sections:
  "map_of (skills_section skills (add_section ''education'' edus (add_section ''experience'' exps [])))
     ''experience'' = (if exps = [] then None else Some (JArr exps))"
  "map_of (skills_section skills (add_section ''education'' edus (add_section ''experience'' exps [])))
     ''education'' = (if edus = [] then None else Some (JArr edus))"
  "map_of (skills_section skills (add_section ''education'' edus (add_section ''experience'' exps [])))
     ''skills'' = (if skills = [] then None
                   else Some (JArr [JObj [(''details'', JStr (py_join '', '' skills))]]))"
  by (simp_all add: skills_section_def add_section_def)

lemma keys_sections:
  "fst ` set (skills_section skills (add_section ''education'' edus (add_section ''experience'' exps [])))
     = (if exps = [] then {} else {''experience''}) \<union> (if edus = [] then {} else {''education''})
       \<union> (if skills = [] then {} else {''skills''})"
  by (auto simp: skills_section_def add_section_def)

lemma sections_empty_iff:
  "skills_section skills (add_section ''education'' edus (add_section ''experience'' exps [])) = []
     \<longleftrightarrow> exps = [] \<and> edus = [] \<and> skills = []"
  by (simp add: skills_section_def add_section_def)

text \<open>The shape of a successful projection, shared by the theorems below.\<close>

lemma convert_result:
  assumes "convert_structured_to_rendercv_yaml str_repr s = Inr r" and "get_cv s = Inr cv"
  shows "\<exists>contact exps edus skills out.
           get_contact cv = Inr contact \<and> exp_entries cv = Inr exps \<and> edu_entries cv = Inr edus
         \<and> skills_list cv = Inr skills
         \<and> r = JObj [(''cv'', JObj out)]
         \<and> out = (if skills_section skills (add_section ''education'' edus (add_section ''experience'' exps [])) \<noteq> []
                  then AList.update ''sections''
                         (JObj (skills_section skills (add_section ''education'' edus (add_section ''experience'' exps []))))
                         (strip_none_fields (rendercv_cv str_repr cv contact))
                  else strip_none_fields (rendercv_cv str_repr cv contact))"
  using assms by (auto simp: convert_Inr build_sections_Inr assemble_shape)

lemma out_sections:
  "map_of (if secs \<noteq> [] then AList.update ''sections'' (JObj secs) (strip_none_fields (rendercv_cv str_repr cv contact))
           else strip_none_fields (rendercv_cv str_repr cv contact)) ''sections''
   = (if secs = [] then None else Some (JObj secs))"
  using sections_not_in_fields [of str_repr cv contact]
  by (simp add: AList.update_conv' key_in_iff_map_of)

lemmas projector_defs =
  convert_structured_to_rendercv_yaml_def bind_result_def get_cv_def get_contact_def
  build_sections_def exp_entries_def edu_entries_def skills_list_def assemble_def
  rendercv_cv_def social_networks_def social_entry_def exp_entry_def edu_entry_def
  strip_none_fields_def strip_none_step_def py_or_def dict_get_def add_section_def
  skills_section_def Let_def py_strip_def is_space_def

section \<open>Top-level fields of the projection\<close>

text \<open>
  Claim C10. Whenever the projector returns, the projected \<open>cv\<close> mapping has the key
  \<open>name\<close>; its value is the source name, or the empty string when the source name is
  missing, \<open>None\<close> or the empty string (or any other false value). The key is never omitted.
\<close>

theorem name_always_present:
  assumes "convert_structured_to_rendercv_yaml str_repr s = Inr r" and "get_cv s = Inr cv"
  shows "\<exists>out. r = JObj [(''cv'', JObj out)]
           \<and> ''name'' \<in> fst ` set out
           \<and> map_of out ''name'' = Some (py_or (dict_get cv ''name'') (JStr ''''))
           \<and> (map_of cv ''name'' = None \<or> map_of cv ''name'' = Some JNull
                \<or> map_of cv ''name'' = Some (JStr '''')
              \<longrightarrow> map_of out ''name'' = Some (JStr ''''))"
proof -
  from convert_result [OF assms] obtain contact secs out
    where r: "r = JObj [(''cv'', JObj out)]"
      and out: "out = (if secs \<noteq> []
                  then AList.update ''sections'' (JObj secs) (strip_none_fields (rendercv_cv str_repr cv contact))
                  else strip_none_fields (rendercv_cv str_repr cv contact))"
    by blast
  have nm: "map_of out ''name'' = Some (py_or (dict_get cv ''name'') (JStr ''''))"
    unfolding out
    by (simp add: map_of_out_cv distinct_rendercv_cv map_of_rendercv_cv_name py_or_nonnull)
  then have "''name'' \<in> fst ` set out"
    by (simp add: key_in_iff_map_of)
  moreover have "map_of cv ''name'' = None \<or> map_of cv ''name'' = Some JNull
                \<or> map_of cv ''name'' = Some (JStr '''')
              \<longrightarrow> map_of out ''name'' = Some (JStr '''')"
    using nm by (auto simp: py_or_def dict_get_def)
  ultimately show ?thesis using r nm by blast
qed

theorem name_always_present_witness:
  "convert_structured_to_rendercv_yaml sample_repr
     (JObj [(''cv'', JObj [(''name'', JNull), (''contact_info'', JObj [(''email'', JStr ''a@b.c'')])])])
     = Inr (JObj [(''cv'', JObj [(''name'', JStr ''''), (''email'', JStr ''a@b.c'')])])
   \<and> get_cv (JObj [(''cv'', JObj [(''name'', JNull), (''contact_info'', JObj [(''email'', JStr ''a@b.c'')])])])
     = Inr [(''name'', JNull), (''contact_info'', JObj [(''email'', JStr ''a@b.c'')])]
   \<and> (\<exists>out. JObj [(''cv'', JObj [(''name'', JStr ''''), (''email'', JStr ''a@b.c'')])] = JObj [(''cv'', JObj out)]
           \<and> ''name'' \<in> fst ` set out \<and> map_of out ''name'' = Some (JStr ''''))"
proof -
  have c: "convert_structured_to_rendercv_yaml sample_repr
     (JObj [(''cv'', JObj [(''name'', JNull), (''contact_info'', JObj [(''email'', JStr ''a@b.c'')])])])
     = Inr (JObj [(''cv'', JObj [(''name'', JStr ''''), (''email'', JStr ''a@b.c'')])])"
    by (simp add: projector_defs)
  have g: "get_cv (JObj [(''cv'', JObj [(''name'', JNull), (''contact_info'', JObj [(''email'', JStr ''a@b.c'')])])])
     = Inr [(''name'', JNull), (''contact_info'', JObj [(''email'', JStr ''a@b.c'')])]"
    by (simp add: projector_defs)
  from name_always_present [OF c g] c g show ?thesis
    by simp
qed

text \<open>
  Claim C3. Whenever the projector returns, each of the contact fields \<open>email\<close>, \<open>phone\<close>,
  \<open>location\<close> and \<open>website\<close> that is missing or \<open>None\<close> in the source contact mapping has
  no key in the projected \<open>cv\<close> mapping; a field that is present keeps its value; and no key
  of the projected \<open>cv\<close> mapping holds \<open>None\<close>.
\<close>

theorem contact_null_omitted:
  assumes "convert_structured_to_rendercv_yaml str_repr s = Inr r" and "get_cv s = Inr cv"
    and "get_contact cv = Inr contact"
    and "f \<in> {''email'', ''phone'', ''location'', ''website''}"
  shows "\<exists>out. r = JObj [(''cv'', JObj out)]
           \<and> (map_of contact f = None \<or> map_of contact f = Some JNull \<longrightarrow> f \<notin> fst ` set out)
           \<and> map_of out f = (if dict_get contact f = JNull then None else Some (dict_get contact f))
           \<and> (\<forall>kv\<in>set out. snd kv \<noteq> JNull)"
proof -
  from convert_result [OF assms(1,2)] assms(3) obtain secs out
    where r: "r = JObj [(''cv'', JObj out)]"
      and out: "out = (if secs \<noteq> []
                  then AList.update ''sections'' (JObj secs) (strip_none_fields (rendercv_cv str_repr cv contact))
                  else strip_none_fields (rendercv_cv str_repr cv contact))"
    by auto
  from assms(4) have neq: "f \<noteq> ''sections''" by auto
  have mp: "map_of out f = (if dict_get contact f = JNull then None else Some (dict_get contact f))"
    unfolding out
    by (simp add: map_of_out_cv [OF distinct_rendercv_cv neq] map_of_rendercv_cv_contact [OF assms(4)])
  then have "map_of contact f = None \<or> map_of contact f = Some JNull \<longrightarrow> f \<notin> fst ` set out"
    by (auto simp: key_in_iff_map_of dict_get_def)
  moreover have "\<forall>kv\<in>set out. snd kv \<noteq> JNull"
    unfolding out using out_cv_nonnull [OF distinct_rendercv_cv] by blast
  ultimately show ?thesis using r mp by blast
qed

theorem contact_null_omitted_witness:
  "convert_structured_to_rendercv_yaml sample_repr
     (JObj [(''cv'', JObj [(''name'', JStr ''Ada''),
        (''contact_info'', JObj [(''email'', JStr ''a@b.c''), (''website'', JNull)])])])
     = Inr (JObj [(''cv'', JObj [(''name'', JStr ''Ada''), (''email'', JStr ''a@b.c'')])])
   \<and> ''phone'' \<in> {''email'', ''phone'', ''location'', ''website''}
   \<and> map_of [(''email'', JStr ''a@b.c''), (''website'', JNull)] ''phone'' = None
   \<and> (\<exists>out. JObj [(''cv'', JObj [(''name'', JStr ''Ada''), (''email'', JStr ''a@b.c'')])] = JObj [(''cv'', JObj out)]
           \<and> ''phone'' \<notin> fst ` set out \<and> map_of out ''phone'' = None)"
proof -
  let ?s = "JObj [(''cv'', JObj [(''name'', JStr ''Ada''),
        (''contact_info'', JObj [(''email'', JStr ''a@b.c''), (''website'', JNull)])])]"
  have c: "convert_structured_to_rendercv_yaml sample_repr ?s
     = Inr (JObj [(''cv'', JObj [(''name'', JStr ''Ada''), (''email'', JStr ''a@b.c'')])])"
    by (simp add: projector_defs)
  have g: "get_cv ?s = Inr [(''name'', JStr ''Ada''),
        (''contact_info'', JObj [(''email'', JStr ''a@b.c''), (''website'', JNull)])]"
    by (simp add: projector_defs)
  have k: "get_contact [(''name'', JStr ''Ada''),
        (''contact_info'', JObj [(''email'', JStr ''a@b.c''), (''website'', JNull)])]
      = Inr [(''email'', JStr ''a@b.c''), (''website'', JNull)]"
    by (simp add: projector_defs)
  have f: "''phone'' \<in> {''email'', ''phone'', ''location'', ''website''}"
    by simp
  from contact_null_omitted [OF c g k f] c show ?thesis
    by (simp add: dict_get_def)
qed

section \<open>The artifact selector returns the first candidate of greatest key\<close>

lemma set_sort_reverse: "set (sort_reverse f xs) = set xs"
  by (simp add: sort_reverse_def)

lemma sort_reverse_stable:
  "filter (\<lambda>y. f y = k) (sort_reverse f xs) = filter (\<lambda>y. f y = k) xs"
proof -
  have "filter (\<lambda>y. f y = k) (sort_reverse f xs) = rev (filter (\<lambda>y. f y = k) (sort_key f (rev xs)))"
    by (simp add: sort_reverse_def rev_filter)
  also have "\<dots> = rev (filter (\<lambda>y. f y = k) (rev xs))"
    by (simp only: sort_key_stable)
  also have "\<dots> = filter (\<lambda>y. f y = k) xs"
    by (simp add: rev_filter)
  finally show ?thesis .
qed

lemma sort_reverse_head_max:
  assumes "sort_reverse f xs = p # ps" and "x \<in> set xs"
  shows "f x \<le> f p"
proof -
  from assms(1) have "rev (sort_key f (rev xs)) = p # ps"
    by (simp add: sort_reverse_def)
  then have eq: "sort_key f (rev xs) = rev ps @ [p]"
    by (metis rev.simps(2) rev_rev_ident)
  have "sorted (map f (sort_key f (rev xs)))"
    by (rule sorted_sort_key)
  with eq have le: "\<forall>y\<in>set ps. f y \<le> f p"
    by (simp add: sorted_append)
  from assms(2) have "x \<in> set (sort_reverse f xs)"
    by (simp add: set_sort_reverse)
  with assms(1) have "x = p \<or> x \<in> set ps" by simp
  with le show ?thesis by auto
qed

lemma filter_eq_Cons_first:
  "filter P xs = p # ps \<Longrightarrow> \<exists>pre post. xs = pre @ p # post \<and> (\<forall>x\<in>set pre. \<not> P x)"
  by (auto simp: filter_eq_Cons_iff)

lemma sort_reverse_head_first:
  fixes f :: "'a \<Rightarrow> 'k::linorder"
  assumes "sort_reverse f xs = p # ps"
  shows "\<exists>pre post. xs = pre @ p # post \<and> (\<forall>x\<in>set pre. f x < f p) \<and> (\<forall>x\<in>set post. f x \<le> f p)"
proof -
  have "filter (\<lambda>y. f y = f p) xs = filter (\<lambda>y. f y = f p) (p # ps)"
    using sort_reverse_stable [of f "f p" xs] assms by simp
  then have "filter (\<lambda>y. f y = f p) xs = p # filter (\<lambda>y. f y = f p) ps"
    by simp
  then obtain pre post where split: "xs = pre @ p # post" and pre: "\<forall>x\<in>set pre. f x \<noteq> f p"
    using filter_eq_Cons_first by fast
  have le: "\<forall>x\<in>set xs. f x \<le> f p"
    using sort_reverse_head_max [OF assms] by blast
  from split le pre have "\<forall>x\<in>set pre. f x < f p"
    by (auto simp: less_le)
  moreover from split le have "\<forall>x\<in>set post. f x \<le> f p"
    by auto
  ultimately show ?thesis using split by blast
qed

lemma find_best_markdown_nonempty:
  assumes "candidates \<noteq> []"
  shows "\<exists>p ps. sort_reverse score candidates = p # ps \<and> find_best_markdown candidates = Inr p"
proof -
  from assms have "set (sort_reverse score candidates) \<noteq> {}"
    by (simp add: set_sort_reverse)
  then obtain p ps where "sort_reverse score candidates = p # ps"
    by (cases "sort_reverse score candidates") auto
  with assms show ?thesis by (simp add: find_best_markdown_def)
qed

lemma score_le_iff:
  "score q \<le> score p \<longleftrightarrow>
     (name_matches (name q) \<longrightarrow> name_matches (name p)) \<and>
     ((name_matches (name q) \<longleftrightarrow> name_matches (name p)) \<longrightarrow>
        (case st_size q of None \<Rightarrow> 0 | Some n \<Rightarrow> n) \<le> (case st_size p of None \<Rightarrow> 0 | Some n \<Rightarrow> n))"
  by (auto simp: score_def Let_def less_eq_prod_def)

text \<open>
  Claim C6. For every non-empty list of candidates the selector returns a candidate of the
  list whose key (name bias, size) is greatest: every candidate listed before it has a
  strictly smaller key and every candidate listed after it has a key that is not greater, so
  ties go to the candidate listed first. The name bias outranks the size: if any candidate
  matches the resume/CV pattern, the one returned does, and among candidates of the same bias
  it has the greatest size. With \<open>a.md\<close> of 100 bytes and \<open>resume.md\<close> of 50 bytes the selector
  returns \<open>resume.md\<close>; with \<open>a.md\<close> of 100 bytes and \<open>b.md\<close> of 200 bytes it returns \<open>b.md\<close>.
\<close>

theorem find_best_markdown_selects_max:
  "(candidates \<noteq> [] \<longrightarrow>
      (\<exists>p pre post. find_best_markdown candidates = Inr p
         \<and> candidates = pre @ p # post
         \<and> (\<forall>q\<in>set pre. score q < score p)
         \<and> (\<forall>q\<in>set post. score q \<le> score p)
         \<and> (\<forall>q\<in>set candidates. name_matches (name q) \<longrightarrow> name_matches (name p))
         \<and> (\<forall>q\<in>set candidates. (name_matches (name q) \<longleftrightarrow> name_matches (name p)) \<longrightarrow>
               (case st_size q of None \<Rightarrow> 0 | Some n \<Rightarrow> n)
                 \<le> (case st_size p of None \<Rightarrow> 0 | Some n \<Rightarrow> n))))
   \<and> find_best_markdown
        [\<lparr>parent = d, name = ''a.md'', st_size = Some 100\<rparr>,
         \<lparr>parent = d, name = ''resume.md'', st_size = Some 50\<rparr>]
      = Inr \<lparr>parent = d, name = ''resume.md'', st_size = Some 50\<rparr>
   \<and> find_best_markdown
        [\<lparr>parent = d, name = ''a.md'', st_size = Some 100\<rparr>,
         \<lparr>parent = d, name = ''b.md'', st_size = Some 200\<rparr>]
      = Inr \<lparr>parent = d, name = ''b.md'', st_size = Some 200\<rparr>"
proof (intro conjI impI)
  assume ne: "candidates \<noteq> []"
  then obtain p ps where sorted: "sort_reverse score candidates = p # ps"
    and res: "find_best_markdown candidates = Inr p"
    using find_best_markdown_nonempty by blast
  from sort_reverse_head_first [OF sorted] obtain pre post
    where split: "candidates = pre @ p # post"
      and pre: "\<forall>q\<in>set pre. score q < score p"
      and post: "\<forall>q\<in>set post. score q \<le> score p"
    by blast
  have le: "\<forall>q\<in>set candidates. score q \<le> score p"
    using sort_reverse_head_max [OF sorted] by blast
  have bias: "\<forall>q\<in>set candidates. name_matches (name q) \<longrightarrow> name_matches (name p)"
    using le by (simp add: score_le_iff)
  have sz: "\<forall>q\<in>set candidates. (name_matches (name q) \<longleftrightarrow> name_matches (name p)) \<longrightarrow>
               (case st_size q of None \<Rightarrow> 0 | Some n \<Rightarrow> n)
                 \<le> (case st_size p of None \<Rightarrow> 0 | Some n \<Rightarrow> n)"
    using le by (simp add: score_le_iff)
  from res split pre post bias sz
  show "\<exists>p pre post. find_best_markdown candidates = Inr p
         \<and> candidates = pre @ p # post
         \<and> (\<forall>q\<in>set pre. score q < score p)
         \<and> (\<forall>q\<in>set post. score q \<le> score p)
         \<and> (\<forall>q\<in>set candidates. name_matches (name q) \<longrightarrow> name_matches (name p))
         \<and> (\<forall>q\<in>set candidates. (name_matches (name q) \<longleftrightarrow> name_matches (name p)) \<longrightarrow>
               (case st_size q of None \<Rightarrow> 0 | Some n \<Rightarrow> n)
                 \<le> (case st_size p of None \<Rightarrow> 0 | Some n \<Rightarrow> n))"
    by blast
next
  show "find_best_markdown
        [\<lparr>parent = d, name = ''a.md'', st_size = Some 100\<rparr>,
         \<lparr>parent = d, name = ''resume.md'', st_size = Some 50\<rparr>]
      = Inr \<lparr>parent = d, name = ''resume.md'', st_size = Some 50\<rparr>"
    by (simp add: find_best_markdown_def sort_reverse_def score_def name_matches_def
        lower_char_def less_eq_prod_def)
next
  show "find_best_markdown
        [\<lparr>parent = d, name = ''a.md'', st_size = Some 100\<rparr>,
         \<lparr>parent = d, name = ''b.md'', st_size = Some 200\<rparr>]
      = Inr \<lparr>parent = d, name = ''b.md'', st_size = Some 200\<rparr>"
    by (simp add: find_best_markdown_def sort_reverse_def score_def name_matches_def
        lower_char_def less_eq_prod_def)
qed

theorem find_best_markdown_selects_max_witness:
  "[\<lparr>parent = ''out'', name = ''a.md'', st_size = Some 100\<rparr>,
      \<lparr>parent = ''out'', name = ''b.md'', st_size = Some 100\<rparr>,
      \<lparr>parent = ''out'', name = ''cv.md'', st_size = None\<rparr>,
      \<lparr>parent = ''out/x'', name = ''cv.md'', st_size = None\<rparr>] \<noteq> []
   \<and> find_best_markdown
     [\<lparr>parent = ''out'', name = ''a.md'', st_size = Some 100\<rparr>,
      \<lparr>parent = ''out'', name = ''b.md'', st_size = Some 100\<rparr>,
      \<lparr>parent = ''out'', name = ''cv.md'', st_size = None\<rparr>,
      \<lparr>parent = ''out/x'', name = ''cv.md'', st_size = None\<rparr>]
   = Inr \<lparr>parent = ''out'', name = ''cv.md'', st_size = None\<rparr>"
  using find_best_markdown_selects_max [of
     "[\<lparr>parent = ''out'', name = ''a.md'', st_size = Some 100\<rparr>,
      \<lparr>parent = ''out'', name = ''b.md'', st_size = Some 100\<rparr>,
      \<lparr>parent = ''out'', name = ''cv.md'', st_size = None\<rparr>,
      \<lparr>parent = ''out/x'', name = ''cv.md'', st_size = None\<rparr>]" "''out''"]
  by (simp add: find_best_markdown_def sort_reverse_def score_def name_matches_def
        lower_char_def less_eq_prod_def)

section \<open>Sections of the projection\<close>

lemma exp_entries_empty: "dict_get cv ''experience'' = JArr [] \<Longrightarrow> exp_entries cv = Inr []"
  by (simp add: exp_entries_def py_or_def bind_result_def)

lemma skills_list_empty: "dict_get cv ''skills'' = JArr [] \<Longrightarrow> skills_list cv = Inr []"
  by (simp add: skills_list_def py_or_def bind_result_def)

text \<open>
  Claim C4. Whenever the projector returns, the key \<open>sections\<close> is missing from the projected
  \<open>cv\<close> mapping when the three collected lists (experience entries, education entries, kept
  skills) are all empty; otherwise \<open>sections\<close> is a mapping in which each of the keys
  \<open>experience\<close>, \<open>education\<close> and \<open>skills\<close> occurs exactly when its collected list is not
  empty. In particular \<open>experience = []\<close> and \<open>skills = []\<close> give an output with no
  \<open>experience\<close> and no \<open>skills\<close> section key.
\<close>

theorem empty_sections_suppressed:
  assumes "convert_structured_to_rendercv_yaml str_repr s = Inr r" and "get_cv s = Inr cv"
  shows "\<exists>out exps edus skills.
           r = JObj [(''cv'', JObj out)]
         \<and> exp_entries cv = Inr exps \<and> edu_entries cv = Inr edus \<and> skills_list cv = Inr skills
         \<and> (if exps = [] \<and> edus = [] \<and> skills = [] then ''sections'' \<notin> fst ` set out
            else (\<exists>secs. map_of out ''sections'' = Some (JObj secs)
                   \<and> (''experience'' \<in> fst ` set secs \<longleftrightarrow> exps \<noteq> [])
                   \<and> (''education'' \<in> fst ` set secs \<longleftrightarrow> edus \<noteq> [])
                   \<and> (''skills'' \<in> fst ` set secs \<longleftrightarrow> skills \<noteq> [])
                   \<and> map_of secs ''experience'' = (if exps = [] then None else Some (JArr exps))
                   \<and> map_of secs ''education'' = (if edus = [] then None else Some (JArr edus))))
         \<and> (dict_get cv ''experience'' = JArr [] \<and> dict_get cv ''skills'' = JArr []
              \<longrightarrow> exps = [] \<and> skills = []
                \<and> (\<forall>secs. map_of out ''sections'' = Some (JObj secs)
                      \<longrightarrow> ''experience'' \<notin> fst ` set secs \<and> ''skills'' \<notin> fst ` set secs))"
proof -
  from convert_result [OF assms] obtain contact exps edus skills out
    where exps: "exp_entries cv = Inr exps" and edus: "edu_entries cv = Inr edus"
      and skills: "skills_list cv = Inr skills"
      and r: "r = JObj [(''cv'', JObj out)]"
      and out: "out = (if skills_section skills (add_section ''education'' edus (add_section ''experience'' exps [])) \<noteq> []
                  then AList.update ''sections''
                         (JObj (skills_section skills (add_section ''education'' edus (add_section ''experience'' exps []))))
                         (strip_none_fields (rendercv_cv str_repr cv contact))
                  else strip_none_fields (rendercv_cv str_repr cv contact))"
    by blast
  let ?secs = "skills_section skills (add_section ''education'' edus (add_section ''experience'' exps []))"
  have sec: "map_of out ''sections'' = (if ?secs = [] then None else Some (JObj ?secs))"
    unfolding out by (rule out_sections)
  have keys: "(''experience'' \<in> fst ` set ?secs \<longleftrightarrow> exps \<noteq> [])"
    "(''education'' \<in> fst ` set ?secs \<longleftrightarrow> edus \<noteq> [])"
    "(''skills'' \<in> fst ` set ?secs \<longleftrightarrow> skills \<noteq> [])"
    by (simp_all add: keys_sections)
  have first: "if exps = [] \<and> edus = [] \<and> skills = [] then ''sections'' \<notin> fst ` set out
            else (\<exists>secs. map_of out ''sections'' = Some (JObj secs)
                   \<and> (''experience'' \<in> fst ` set secs \<longleftrightarrow> exps \<noteq> [])
                   \<and> (''education'' \<in> fst ` set secs \<longleftrightarrow> edus \<noteq> [])
                   \<and> (''skills'' \<in> fst ` set secs \<longleftrightarrow> skills \<noteq> [])
                   \<and> map_of secs ''experience'' = (if exps = [] then None else Some (JArr exps))
                   \<and> map_of secs ''education'' = (if edus = [] then None else Some (JArr edus)))"
  proof (cases "exps = [] \<and> edus = [] \<and> skills = []")
    case True
    then have "?secs = []" by (simp add: sections_empty_iff)
    with sec have "map_of out ''sections'' = None" by simp
    then have "''sections'' \<notin> fst ` set out" by (simp add: key_in_iff_map_of)
    with True show ?thesis by simp
  next
    case False
    then have "?secs \<noteq> []" by (simp add: sections_empty_iff)
    with sec have "map_of out ''sections'' = Some (JObj ?secs)" by simp
    with keys map_of_sections(1,2) [of skills edus exps] False show ?thesis
      by (simp only: if_False) blast
  qed
  have second: "dict_get cv ''experience'' = JArr [] \<and> dict_get cv ''skills'' = JArr []
              \<longrightarrow> exps = [] \<and> skills = []
                \<and> (\<forall>secs. map_of out ''sections'' = Some (JObj secs)
                      \<longrightarrow> ''experience'' \<notin> fst ` set secs \<and> ''skills'' \<notin> fst ` set secs)"
  proof (intro impI)
    assume e: "dict_get cv ''experience'' = JArr [] \<and> dict_get cv ''skills'' = JArr []"
    with exps skills have emp: "exps = []" "skills = []"
      by (simp_all add: exp_entries_empty skills_list_empty)
    have "\<forall>secs. map_of out ''sections'' = Some (JObj secs)
                      \<longrightarrow> ''experience'' \<notin> fst ` set secs \<and> ''skills'' \<notin> fst ` set secs"
    proof (intro allI impI)
      fix secs assume "map_of out ''sections'' = Some (JObj secs)"
      with sec have "secs = ?secs" by (simp split: if_splits)
      with keys emp show "''experience'' \<notin> fst ` set secs \<and> ''skills'' \<notin> fst ` set secs"
        by simp
    qed
    with emp show "exps = [] \<and> skills = []
                \<and> (\<forall>secs. map_of out ''sections'' = Some (JObj secs)
                      \<longrightarrow> ''experience'' \<notin> fst ` set secs \<and> ''skills'' \<notin> fst ` set secs)"
      by simp
  qed
  from r exps edus skills first second show ?thesis by blast
qed

theorem empty_sections_suppressed_witness:
  "convert_structured_to_rendercv_yaml sample_repr
     (JObj [(''cv'', JObj [(''name'', JStr ''Ada''), (''experience'', JArr []),
        (''education'', JArr [JObj [(''institution'', JStr ''MIT'')]]), (''skills'', JArr [])])])
     = Inr (JObj [(''cv'', JObj [(''name'', JStr ''Ada''),
         (''sections'', JObj [(''education'',
            JArr [JObj [(''institution'', JStr ''MIT''), (''highlights'', JArr [])]])])])])
   \<and> convert_structured_to_rendercv_yaml sample_repr
     (JObj [(''cv'', JObj [(''name'', JStr ''Ada''), (''experience'', JArr []), (''skills'', JArr [])])])
     = Inr (JObj [(''cv'', JObj [(''name'', JStr ''Ada'')])])"
proof -
  let ?cv = "[(''name'', JStr ''Ada''), (''experience'', JArr []),
        (''education'', JArr [JObj [(''institution'', JStr ''MIT'')]]), (''skills'', JArr [])]"
  let ?r = "JObj [(''cv'', JObj [(''name'', JStr ''Ada''),
         (''sections'', JObj [(''education'',
            JArr [JObj [(''institution'', JStr ''MIT''), (''highlights'', JArr [])]])])])]"
  have c: "convert_structured_to_rendercv_yaml sample_repr (JObj [(''cv'', JObj ?cv)]) = Inr ?r"
    by (simp add: projector_defs)
  have g: "get_cv (JObj [(''cv'', JObj ?cv)]) = Inr ?cv"
    by (simp add: projector_defs)
  have c2: "convert_structured_to_rendercv_yaml sample_repr
     (JObj [(''cv'', JObj [(''name'', JStr ''Ada''), (''experience'', JArr []), (''skills'', JArr [])])])
     = Inr (JObj [(''cv'', JObj [(''name'', JStr ''Ada'')])])"
    by (simp add: projector_defs)
  from empty_sections_suppressed [OF c g] c c2 show ?thesis
    by simp
qed

section \<open>Entries of the experience and education sections\<close>

lemma collect_entries_mem:
  "e \<in> set (collect_entries mk items) \<longleftrightarrow> (\<exists>item. JObj item \<in> set items \<and> e = JObj (mk item))"
  by (induction mk items rule: collect_entries.induct) auto


lemma edu_entries_Inr:
  "edu_entries cv = Inr es \<longleftrightarrow>
     (\<exists>items. py_iter (py_or (dict_get cv ''education'') (JArr [])) = Inr items
        \<and> es = collect_entries edu_entry items)"
  by (auto simp: edu_entries_def bind_result_Inr_iff)

lemma py_iter_list: "py_iter (py_or (JArr items) (JArr [])) = Inr items"
  by (simp add: py_or_def)


lemma map_of_edu_entry:
  "map_of (edu_entry item) ''institution'' = Some (py_or (dict_get item ''institution'') (JStr ''''))"
  "map_of (edu_entry item) ''highlights'' = Some (py_or (dict_get item ''notes'') (JArr []))"
  "f \<in> {''degree'', ''field'', ''location'', ''start_date'', ''end_date''} \<Longrightarrow>
     map_of (edu_entry item) f = (if dict_get item f = JNull then None else Some (dict_get item f))"
  "map_of (edu_entry item) ''notes'' = None"
  by (auto simp: edu_entry_def map_of_strip_none_fields py_or_nonnull)




lemma convert_entry_lists:
  assumes "convert_structured_to_rendercv_yaml str_repr s = Inr r" and "get_cv s = Inr cv"
  shows "\<exists>out exps edus.
           r = JObj [(''cv'', JObj out)] \<and> exp_entries cv = Inr exps \<and> edu_entries cv = Inr edus
         \<and> (exps \<noteq> [] \<longrightarrow> (\<exists>secs. map_of out ''sections'' = Some (JObj secs)
                               \<and> map_of secs ''experience'' = Some (JArr exps)))
         \<and> (edus \<noteq> [] \<longrightarrow> (\<exists>secs. map_of out ''sections'' = Some (JObj secs)
                               \<and> map_of secs ''education'' = Some (JArr edus)))"
proof -
  from convert_result [OF assms] obtain contact exps edus skills out
    where exps: "exp_entries cv = Inr exps" and edus: "edu_entries cv = Inr edus"
      and r: "r = JObj [(''cv'', JObj out)]"
      and out: "out = (if skills_section skills (add_section ''education'' edus (add_section ''experience'' exps [])) \<noteq> []
                  then AList.update ''sections''
                         (JObj (skills_section skills (add_section ''education'' edus (add_section ''experience'' exps []))))
                         (strip_none_fields (rendercv_cv str_repr cv contact))
                  else strip_none_fields (rendercv_cv str_repr cv contact))"
    by blast
  let ?secs = "skills_section skills (add_section ''education'' edus (add_section ''experience'' exps []))"
  have sec: "map_of out ''sections'' = (if ?secs = [] then None else Some (JObj ?secs))"
    unfolding out by (rule out_sections)
  have "exps \<noteq> [] \<longrightarrow> (\<exists>secs. map_of out ''sections'' = Some (JObj secs)
                               \<and> map_of secs ''experience'' = Some (JArr exps))"
    using sec map_of_sections(1) [of skills edus exps] by (auto simp: sections_empty_iff)
  moreover have "edus \<noteq> [] \<longrightarrow> (\<exists>secs. map_of out ''sections'' = Some (JObj secs)
                               \<and> map_of secs ''education'' = Some (JArr edus))"
    using sec map_of_sections(2) [of skills edus exps] by (auto simp: sections_empty_iff)
  ultimately show ?thesis using r exps edus by blast
qed



section \<open>Education notes become highlights\<close>

lemma edu_entry_no_notes: "''notes'' \<notin> fst ` set (edu_entry item)"
  by (simp add: key_in_iff_map_of map_of_edu_entry(4))

text \<open>
  Claim C9. Whenever the projector returns, every education item of the input list that is
  a mapping has its projected entry in the education section; that entry holds the item's
  \<open>notes\<close> under the key \<open>highlights\<close> (the empty list when \<open>notes\<close> is missing or \<open>None\<close>),
  and no projected education entry has a key \<open>notes\<close>.
\<close>

theorem education_notes_as_highlights:
  assumes "convert_structured_to_rendercv_yaml str_repr s = Inr r" and "get_cv s = Inr cv"
    and "dict_get cv ''education'' = JArr items" and "JObj item \<in> set items"
  shows "\<exists>out secs edus.
           r = JObj [(''cv'', JObj out)]
         \<and> map_of out ''sections'' = Some (JObj secs)
         \<and> map_of secs ''education'' = Some (JArr edus)
         \<and> JObj (edu_entry item) \<in> set edus
         \<and> map_of (edu_entry item) ''highlights'' = Some (py_or (dict_get item ''notes'') (JArr []))
         \<and> (truthy (dict_get item ''notes'')
              \<longrightarrow> map_of (edu_entry item) ''highlights'' = Some (dict_get item ''notes''))
         \<and> (map_of item ''notes'' = None \<or> map_of item ''notes'' = Some JNull
              \<longrightarrow> map_of (edu_entry item) ''highlights'' = Some (JArr []))
         \<and> (\<forall>flds. JObj flds \<in> set edus \<longrightarrow> ''notes'' \<notin> fst ` set flds)"
proof -
  from convert_entry_lists [OF assms(1,2)] obtain out edus
    where r: "r = JObj [(''cv'', JObj out)]" and edus: "edu_entries cv = Inr edus"
      and sec: "edus \<noteq> [] \<longrightarrow> (\<exists>secs. map_of out ''sections'' = Some (JObj secs)
                               \<and> map_of secs ''education'' = Some (JArr edus))"
    by blast
  from edus assms(3) have coll: "edus = collect_entries edu_entry items"
    by (simp add: edu_entries_Inr py_iter_list)
  with assms(4) have mem: "JObj (edu_entry item) \<in> set edus"
    by (auto simp: collect_entries_mem)
  then have "edus \<noteq> []" by auto
  with sec obtain secs where secs: "map_of out ''sections'' = Some (JObj secs)"
      "map_of secs ''education'' = Some (JArr edus)"
    by blast
  have hl: "map_of (edu_entry item) ''highlights'' = Some (py_or (dict_get item ''notes'') (JArr []))"
    by (rule map_of_edu_entry(2))
  have tr: "truthy (dict_get item ''notes'')
              \<longrightarrow> map_of (edu_entry item) ''highlights'' = Some (dict_get item ''notes'')"
    by (simp add: hl py_or_def)
  have df: "map_of item ''notes'' = None \<or> map_of item ''notes'' = Some JNull
              \<longrightarrow> map_of (edu_entry item) ''highlights'' = Some (JArr [])"
    by (auto simp: hl py_or_def dict_get_def)
  have nn: "\<forall>flds. JObj flds \<in> set edus \<longrightarrow> ''notes'' \<notin> fst ` set flds"
  proof (intro allI impI)
    fix flds assume "JObj flds \<in> set edus"
    with coll obtain it where "flds = edu_entry it"
      by (auto simp: collect_entries_mem)
    then show "''notes'' \<notin> fst ` set flds"
      by (simp only: edu_entry_no_notes not_False_eq_True)
  qed
  from r secs mem hl tr df nn show ?thesis by blast
qed

theorem education_notes_as_highlights_witness:
  "convert_structured_to_rendercv_yaml sample_repr
     (JObj [(''cv'', JObj [(''education'',
        JArr [JObj [(''institution'', JStr ''MIT''), (''notes'', JArr [JStr ''Honours''])]])])])
     = Inr (JObj [(''cv'', JObj [(''name'', JStr ''''),
         (''sections'', JObj [
            (''education'', JArr [JObj [(''institution'', JStr ''MIT''),
                                       (''highlights'', JArr [JStr ''Honours''])]])])])])
   \<and> JObj [(''institution'', JStr ''MIT''), (''notes'', JArr [JStr ''Honours''])]
       \<in> set [JObj [(''institution'', JStr ''MIT''), (''notes'', JArr [JStr ''Honours''])]]
   \<and> map_of (edu_entry [(''institution'', JStr ''MIT''), (''notes'', JArr [JStr ''Honours''])]) ''highlights''
       = Some (JArr [JStr ''Honours''])
   \<and> ''notes'' \<notin> fst ` set (edu_entry [(''institution'', JStr ''MIT''), (''notes'', JArr [JStr ''Honours''])])"
proof -
  let ?item = "[(''institution'', JStr ''MIT''), (''notes'', JArr [JStr ''Honours''])]"
  let ?cv = "[(''education'', JArr [JObj ?item])]"
  let ?r = "JObj [(''cv'', JObj [(''name'', JStr ''''),
         (''sections'', JObj [
            (''education'', JArr [JObj [(''institution'', JStr ''MIT''),
                                       (''highlights'', JArr [JStr ''Honours''])]])])])]"
  have c: "convert_structured_to_rendercv_yaml sample_repr (JObj [(''cv'', JObj ?cv)]) = Inr ?r"
    by (simp add: projector_defs)
  have g: "get_cv (JObj [(''cv'', JObj ?cv)]) = Inr ?cv"
    by (simp add: projector_defs)
  have d: "dict_get ?cv ''education'' = JArr [JObj ?item]"
    by (simp add: dict_get_def)
  have m: "JObj ?item \<in> set [JObj ?item]"
    by simp
  have e: "edu_entry ?item = [(''institution'', JStr ''MIT''), (''highlights'', JArr [JStr ''Honours''])]"
    by (simp add: projector_defs)
  from education_notes_as_highlights [OF c g d m] c e show ?thesis
    by simp
qed

section \<open>When the projector returns\<close>















section \<open>The skills section\<close>

lemma keep_skills_filter: "keep_skills xs = [t. JStr t \<leftarrow> xs, py_strip t \<noteq> []]"
  by (induction xs rule: keep_skills.induct) auto

lemma skills_list_of_list: "dict_get cv ''skills'' = JArr xs \<Longrightarrow> skills_list cv = Inr (keep_skills xs)"
  by (simp add: skills_list_def py_iter_list bind_result_def)

text \<open>
  Claim C1, as amended. For a skills input list the projector keeps the entries that are
  strings and are not empty after \<open>strip\<close>, each as it is written (the whitespace around a
  kept skill is not removed). If any remain, the skills section is exactly one entry whose
  single field \<open>details\<close> is the kept skills joined by a comma and a space; if none remain,
  there is no skills section.
\<close>

theorem skills_joined_untrimmed:
  assumes "convert_structured_to_rendercv_yaml str_repr s = Inr r" and "get_cv s = Inr cv"
    and "dict_get cv ''skills'' = JArr xs"
  shows "\<exists>out. r = JObj [(''cv'', JObj out)]
         \<and> (if [t. JStr t \<leftarrow> xs, py_strip t \<noteq> []] = []
            then \<forall>secs. map_of out ''sections'' = Some (JObj secs) \<longrightarrow> ''skills'' \<notin> fst ` set secs
            else \<exists>secs. map_of out ''sections'' = Some (JObj secs)
                   \<and> map_of secs ''skills''
                       = Some (JArr [JObj [(''details'',
                           JStr (py_join '', '' [t. JStr t \<leftarrow> xs, py_strip t \<noteq> []]))]]))"
proof -
  from convert_result [OF assms(1,2)] obtain contact exps edus skills out
    where skills: "skills_list cv = Inr skills"
      and r: "r = JObj [(''cv'', JObj out)]"
      and out: "out = (if skills_section skills (add_section ''education'' edus (add_section ''experience'' exps [])) \<noteq> []
                  then AList.update ''sections''
                         (JObj (skills_section skills (add_section ''education'' edus (add_section ''experience'' exps []))))
                         (strip_none_fields (rendercv_cv str_repr cv contact))
                  else strip_none_fields (rendercv_cv str_repr cv contact))"
    by blast
  let ?secs = "skills_section skills (add_section ''education'' edus (add_section ''experience'' exps []))"
  define kept where "kept = [t. JStr t \<leftarrow> xs, py_strip t \<noteq> []]"
  from skills assms(3) have kept: "skills = kept"
    by (simp add: skills_list_of_list keep_skills_filter kept_def)
  have sec: "map_of out ''sections'' = (if ?secs = [] then None else Some (JObj ?secs))"
    unfolding out by (rule out_sections)
  have sk: "map_of ?secs ''skills'' = (if skills = [] then None
                   else Some (JArr [JObj [(''details'', JStr (py_join '', '' skills))]]))"
    by (rule map_of_sections(3))
  have "if kept = []
            then \<forall>secs. map_of out ''sections'' = Some (JObj secs) \<longrightarrow> ''skills'' \<notin> fst ` set secs
            else \<exists>secs. map_of out ''sections'' = Some (JObj secs)
                   \<and> map_of secs ''skills''
                       = Some (JArr [JObj [(''details'', JStr (py_join '', '' kept))]])"
  proof (cases "kept = []")
    case True
    with kept have emp: "skills = []" by simp
    have "\<forall>secs. map_of out ''sections'' = Some (JObj secs) \<longrightarrow> ''skills'' \<notin> fst ` set secs"
    proof (intro allI impI)
      fix secs assume "map_of out ''sections'' = Some (JObj secs)"
      with sec have "secs = ?secs" by (simp split: if_splits)
      with sk emp show "''skills'' \<notin> fst ` set secs"
        by (simp add: key_in_iff_map_of)
    qed
    with True show ?thesis by simp
  next
    case False
    with kept have ne: "skills \<noteq> []" by simp
    then have "?secs \<noteq> []" by (simp add: sections_empty_iff)
    with sec have "map_of out ''sections'' = Some (JObj ?secs)" by simp
    moreover from sk ne kept have "map_of ?secs ''skills''
        = Some (JArr [JObj [(''details'', JStr (py_join '', '' kept))]])"
      by simp
    ultimately have "\<exists>secs. map_of out ''sections'' = Some (JObj secs)
                   \<and> map_of secs ''skills''
                       = Some (JArr [JObj [(''details'', JStr (py_join '', '' kept))]])"
      by blast
    with False show ?thesis by simp
  qed
  with r show ?thesis unfolding kept_def by blast
qed

theorem skills_joined_untrimmed_witness:
  "convert_structured_to_rendercv_yaml sample_repr
     (JObj [(''cv'', JObj [(''skills'', JArr [JStr '' Python'', JInt 7, JStr ''  '', JStr ''SQL '']) ])])
     = Inr (JObj [(''cv'', JObj [(''name'', JStr ''''),
         (''sections'', JObj [(''skills'', JArr [JObj [(''details'', JStr '' Python, SQL '')]])])])])
   \<and> dict_get [(''skills'', JArr [JStr '' Python'', JInt 7, JStr ''  '', JStr ''SQL ''])] ''skills''
       = JArr [JStr '' Python'', JInt 7, JStr ''  '', JStr ''SQL '']"
proof -
  let ?cv = "[(''skills'', JArr [JStr '' Python'', JInt 7, JStr ''  '', JStr ''SQL ''])]"
  have c: "convert_structured_to_rendercv_yaml sample_repr (JObj [(''cv'', JObj ?cv)])
     = Inr (JObj [(''cv'', JObj [(''name'', JStr ''''),
         (''sections'', JObj [(''skills'', JArr [JObj [(''details'', JStr '' Python, SQL '')]])])])])"
    by (simp add: projector_defs)
  have g: "get_cv (JObj [(''cv'', JObj ?cv)]) = Inr ?cv"
    by (simp add: projector_defs)
  have d: "dict_get ?cv ''skills'' = JArr [JStr '' Python'', JInt 7, JStr ''  '', JStr ''SQL '']"
    by (simp add: dict_get_def)
  from skills_joined_untrimmed [OF c g d] c d show ?thesis
    by simp
qed

text \<open>
  The claim as stated fails: for the skills \<open>["Go", "", "  Rust  "]\<close> the value of the one
  entry keeps the spaces around \<open>Rust\<close>.
\<close>

theorem skills_not_trimmed_counterexample:
  "convert_structured_to_rendercv_yaml sample_repr
     (JObj [(''cv'', JObj [(''skills'', JArr [JStr ''Go'', JStr '''', JStr ''  Rust  ''])])])
     = Inr (JObj [(''cv'', JObj [(''name'', JStr ''''),
         (''sections'', JObj [(''skills'', JArr [JObj [(''details'', JStr ''Go,   Rust  '')]])])])])
   \<and> ''Go,   Rust  '' \<noteq> ''Go, Rust''"
  by (simp add: projector_defs)

section \<open>Determinism\<close>






section \<open>The salvage parser slices from the first opening to the last closing brace\<close>








lemma brace_cases:
  "CHR ''{'' \<notin> set t \<or> CHR ''}'' \<notin> set t
   \<or> (\<exists>a b c. t = a @ [CHR ''}''] @ b @ [CHR ''{''] @ c
         \<and> CHR ''{'' \<notin> set a \<and> CHR ''{'' \<notin> set b \<and> CHR ''}'' \<notin> set b \<and> CHR ''}'' \<notin> set c)
   \<or> (\<exists>pre mid post. t = pre @ [CHR ''{''] @ mid @ [CHR ''}''] @ post
         \<and> CHR ''{'' \<notin> set pre \<and> CHR ''}'' \<notin> set post)"
proof (cases "CHR ''{'' \<in> set t \<and> CHR ''}'' \<in> set t")
  case False
  then show ?thesis by blast
next
  case True
  then obtain p1 r1 where s1: "t = p1 @ CHR ''{'' # r1" and n1: "CHR ''{'' \<notin> set p1"
    by (meson split_list_first)
  from True obtain p2 q2 where s2: "t = p2 @ CHR ''}'' # q2" and n2: "CHR ''}'' \<notin> set q2"
    by (meson split_list_last)
  from s1 s2 have eq: "p1 @ CHR ''{'' # r1 = p2 @ CHR ''}'' # q2" by simp
  then consider (before) us where "p1 = p2 @ us" "us @ CHR ''{'' # r1 = CHR ''}'' # q2"
    | (after) us where "p1 @ us = p2" "CHR ''{'' # r1 = us @ CHR ''}'' # q2"
    by (auto simp: append_eq_append_conv2)
  then show ?thesis
  proof cases
    case before
    from before(2) obtain b where us: "us = CHR ''}'' # b" and q2: "q2 = b @ CHR ''{'' # r1"
      by (cases us) auto
    from before(1) us s1 have "t = p2 @ [CHR ''}''] @ b @ [CHR ''{''] @ r1" by simp
    moreover from n1 before(1) us have "CHR ''{'' \<notin> set p2" "CHR ''{'' \<notin> set b" by auto
    moreover from n2 q2 have "CHR ''}'' \<notin> set b" "CHR ''}'' \<notin> set r1" by auto
    ultimately show ?thesis by blast
  next
    case after
    from after(2) obtain mid where us: "us = CHR ''{'' # mid" and r1: "r1 = mid @ CHR ''}'' # q2"
      by (cases us) auto
    from after(1) us s2 have "t = p1 @ [CHR ''{''] @ mid @ [CHR ''}''] @ q2" by simp
    with n1 n2 show ?thesis by blast
  qed
qed





end
